theory Spec2Isabelle
  imports Complex_Main "HOL-Library.Multiset"
begin

section \<open>Event Pass (module 4): the in-memory event store and its server actions\<close>

text \<open>
  The development embeds \<^verbatim>\<open>src/web/module4-event-pass/src/data/events.ts\<close> (the store and
  its access functions) and \<^verbatim>\<open>src/actions/eventActions.ts\<close> (the server actions on top of
  it). The store is the module-level array \<^verbatim>\<open>events\<close>; every access function is modelled
  by state passing: it takes the array and returns its result together with the array
  after the call. The two readings of the environment, \<^verbatim>\<open>new Date().toISOString()\<close> and
  \<^verbatim>\<open>generateId()\<close>, are arguments of the model. \<^verbatim>\<open>await delay(ms)\<close> only suspends the
  call and touches no state; what comes after it runs without suspension, so it is one
  function of the state at the moment the call resumes.

  Numbers: \<^verbatim>\<open>capacity\<close> and \<^verbatim>\<open>registeredCount\<close> are integers in the data model and in the
  seed data, so they are \<open>int\<close> here (JavaScript's rounding above \<open>2^53\<close> is outside the
  model); \<^verbatim>\<open>price\<close> is only stored and carried, as a rational. Strings are byte lists.
\<close>

subsection \<open>Data model\<close>

text \<open>
  The interface \<^verbatim>\<open>Event\<close> is declared in \<^verbatim>\<open>types/event.ts\<close>, which is not among the
  sources; its fields are the ones of the seed objects in \<^verbatim>\<open>events.ts\<close>. The status is kept
  as the string the code compares (\<^verbatim>\<open>'publicado'\<close>, \<^verbatim>\<open>'borrador'\<close>, \<^verbatim>\<open>'cancelado'\<close>).
  The field \<^verbatim>\<open>id\<close> is called \<open>event_id\<close>.
\<close>

record Event =
  event_id :: string
  title :: string
  description :: string
  category :: string
  status :: string
  date :: string
  endDate :: "string option"
  location :: string
  address :: string
  capacity :: int
  registeredCount :: int
  price :: rat
  imageUrl :: "string option"
  organizerName :: string
  organizerEmail :: string
  tags :: "string list"
  createdAt :: string
  updatedAt :: string

type_synonym Store = "Event list"

text \<open>\<^verbatim>\<open>Array.prototype.findIndex\<close>: the index of the first match, \<open>None\<close> for \<^verbatim>\<open>-1\<close>.\<close>

fun findIndex :: "('a \<Rightarrow> bool) \<Rightarrow> 'a list \<Rightarrow> nat option" where
  "findIndex P [] = None"
| "findIndex P (x # xs) = (if P x then Some 0 else map_option Suc (findIndex P xs))"

text \<open>The invariant of a reservable: \<open>0 \<le> registeredCount \<le> capacity\<close>.\<close>

definition within_capacity :: "Event \<Rightarrow> bool" where
  "within_capacity e = (0 \<le> registeredCount e \<and> registeredCount e \<le> capacity e)"

subsection \<open>Access functions of \<^verbatim>\<open>events.ts\<close>\<close>

text \<open>
  \<^verbatim>\<open>getEventById\<close>: \<^verbatim>\<open>events.find((event) => event.id === id) ?? null\<close>. \<open>List.find\<close> is
  \<^verbatim>\<open>Array.prototype.find\<close>; \<^verbatim>\<open>null\<close> is \<open>None\<close>.
\<close>

definition getEventById :: "string \<Rightarrow> Store \<Rightarrow> Event option \<times> Store" where
  "getEventById i events = (find (\<lambda>event. event_id event = i) events, events)"

text \<open>
  \<^verbatim>\<open>registerForEvent\<close>. \<^verbatim>\<open>events.find\<close> returns a reference to the first element with the
  given id, and the two assignments mutate that element of the array in place: the
  reference is the position \<open>k\<close> of the first match, the mutation is the update of the
  array at \<open>k\<close>. The checks are in the order of the source: missing, full, not published.
\<close>

definition registerForEvent :: "string \<Rightarrow> string \<Rightarrow> Store \<Rightarrow> Event option \<times> Store" where
  "registerForEvent i now events =
     (case findIndex (\<lambda>e. event_id e = i) events of
        None \<Rightarrow> (None, events)
      | Some k \<Rightarrow>
          (let event = events ! k in
           if registeredCount event \<ge> capacity event then (None, events)
           else if status event \<noteq> ''publicado'' then (None, events)
           else
             (let event' = event\<lparr>registeredCount := registeredCount event + 1,
                                   updatedAt := now\<rparr>
              in (Some event', events[k := event']))))"

text \<open>
  \<^verbatim>\<open>createEvent\<close>. The parameter type omits \<^verbatim>\<open>id\<close>, \<^verbatim>\<open>registeredCount\<close>, \<^verbatim>\<open>createdAt\<close> and
  \<^verbatim>\<open>updatedAt\<close>, but types are erased at run time and the spread \<^verbatim>\<open>...data\<close> copies
  whatever the object carries; \<open>CreateData\<close> therefore has the four keys as optional
  extras. In the object literal the four properties are written after the spread, so
  they replace anything the spread copied.
\<close>

record CreateData =
  d_title :: string
  d_description :: string
  d_category :: string
  d_status :: string
  d_date :: string
  d_endDate :: "string option"
  d_location :: string
  d_address :: string
  d_capacity :: int
  d_price :: rat
  d_imageUrl :: "string option"
  d_organizerName :: string
  d_organizerEmail :: string
  d_tags :: "string list"
  d_id :: "string option"
  d_registeredCount :: "int option"
  d_createdAt :: "string option"
  d_updatedAt :: "string option"

definition createEvent :: "CreateData \<Rightarrow> string \<Rightarrow> string \<Rightarrow> Store \<Rightarrow> Event \<times> Store" where
  "createEvent d newId now events =
     (let newEvent =
        \<lparr>event_id = newId, title = d_title d, description = d_description d,
         category = d_category d, status = d_status d, date = d_date d,
         endDate = d_endDate d, location = d_location d, address = d_address d,
         capacity = d_capacity d, registeredCount = 0, price = d_price d,
         imageUrl = d_imageUrl d, organizerName = d_organizerName d,
         organizerEmail = d_organizerEmail d, tags = d_tags d,
         createdAt = now, updatedAt = now\<rparr>
      in (newEvent, events @ [newEvent]))"

text \<open>
  \<^verbatim>\<open>updateEvent\<close> takes a \<^verbatim>\<open>Partial<Omit<Event, 'id' | 'createdAt'>>\<close>: every key may be
  absent (\<open>None\<close>). \<^verbatim>\<open>{...events[index], ...data, updatedAt: ...}\<close> keeps the stored value
  of a key that \<^verbatim>\<open>data\<close> lacks and takes the value of \<^verbatim>\<open>data\<close> otherwise; \<^verbatim>\<open>updatedAt\<close>
  is written last. (A key that is present with the value \<^verbatim>\<open>undefined\<close>, which the action
  never builds, is outside the model.)
\<close>

record EventPatch =
  p_title :: "string option"
  p_description :: "string option"
  p_category :: "string option"
  p_status :: "string option"
  p_date :: "string option"
  p_endDate :: "string option option"
  p_location :: "string option"
  p_address :: "string option"
  p_capacity :: "int option"
  p_registeredCount :: "int option"
  p_price :: "rat option"
  p_imageUrl :: "string option option"
  p_organizerName :: "string option"
  p_organizerEmail :: "string option"
  p_tags :: "string list option"
  p_updatedAt :: "string option"

definition spread :: "'a \<Rightarrow> 'a option \<Rightarrow> 'a" where
  "spread stored given = (case given of None \<Rightarrow> stored | Some v \<Rightarrow> v)"

definition updateEvent :: "string \<Rightarrow> EventPatch \<Rightarrow> string \<Rightarrow> Store \<Rightarrow> Event option \<times> Store" where
  "updateEvent i patch now events =
     (case findIndex (\<lambda>event. event_id event = i) events of
        None \<Rightarrow> (None, events)
      | Some index \<Rightarrow>
          (let old = events ! index;
               updated =
                 \<lparr>event_id = event_id old,
                  title = spread (title old) (p_title patch),
                  description = spread (description old) (p_description patch),
                  category = spread (category old) (p_category patch),
                  status = spread (status old) (p_status patch),
                  date = spread (date old) (p_date patch),
                  endDate = spread (endDate old) (p_endDate patch),
                  location = spread (location old) (p_location patch),
                  address = spread (address old) (p_address patch),
                  capacity = spread (capacity old) (p_capacity patch),
                  registeredCount = spread (registeredCount old) (p_registeredCount patch),
                  price = spread (price old) (p_price patch),
                  imageUrl = spread (imageUrl old) (p_imageUrl patch),
                  organizerName = spread (organizerName old) (p_organizerName patch),
                  organizerEmail = spread (organizerEmail old) (p_organizerEmail patch),
                  tags = spread (tags old) (p_tags patch),
                  createdAt = createdAt old,
                  updatedAt = now\<rparr>
           in (Some updated, events[index := updated])))"

subsection \<open>Server actions of \<^verbatim>\<open>eventActions.ts\<close>\<close>

text \<open>
  \<^verbatim>\<open>FormData.get\<close> gives the string posted under a name, or \<^verbatim>\<open>null\<close>. \<^verbatim>\<open>FormValues\<close> and
  \<^verbatim>\<open>FormState\<close> are declared in the absent \<^verbatim>\<open>types/event.ts\<close>; their fields are the ones
  the actions write. A string is truthy when it is neither \<^verbatim>\<open>null\<close> nor empty.
\<close>

type_synonym FormData = "string \<Rightarrow> string option"

record FormValues =
  fv_title :: "string option"
  fv_description :: "string option"
  fv_category :: "string option"
  fv_status :: "string option"
  fv_date :: "string option"
  fv_endDate :: "string option"
  fv_location :: "string option"
  fv_address :: "string option"
  fv_capacity :: "string option"
  fv_price :: "string option"
  fv_imageUrl :: "string option"
  fv_organizerName :: "string option"
  fv_organizerEmail :: "string option"
  fv_tags :: "string option"

record FormState =
  fs_success :: bool
  fs_message :: string
  fs_errors :: "(string \<times> string list) list option"
  fs_values :: "FormValues option"
  fs_data :: "Event option"

definition truthy :: "string option \<Rightarrow> bool" where
  "truthy v = (case v of None \<Rightarrow> False | Some s \<Rightarrow> s \<noteq> [])"

text \<open>\<^verbatim>\<open>v || undefined\<close>, and \<^verbatim>\<open>if (v) rawData.key = v\<close>: the key is there only for a truthy \<open>v\<close>.\<close>

definition or_undefined :: "string option \<Rightarrow> string option" where
  "or_undefined v = (if truthy v then v else None)"

text \<open>
  \<^verbatim>\<open>tags.split(',').map((t) => t.trim()).filter(Boolean)\<close>. \<open>trim\<close> removes the ASCII white
  space of JavaScript's \<^verbatim>\<open>trim\<close> (the white space beyond ASCII is not in the model).
\<close>

fun split_on :: "char \<Rightarrow> string \<Rightarrow> string list" where
  "split_on c [] = [[]]"
| "split_on c (x # xs) =
     (if x = c then [] # split_on c xs
      else (case split_on c xs of [] \<Rightarrow> [[x]] | y # ys \<Rightarrow> (x # y) # ys))"

definition is_space :: "char \<Rightarrow> bool" where
  "is_space c = (c \<in> {CHR 0x09, CHR 0x0A, CHR 0x0B, CHR 0x0C, CHR 0x0D, CHR 0x20})"

definition trim :: "string \<Rightarrow> string" where
  "trim s = rev (dropWhile is_space (rev (dropWhile is_space s)))"

definition split_tags :: "string \<Rightarrow> string list" where
  "split_tags s = filter (\<lambda>t. t \<noteq> []) (map trim (split_on CHR '','' s))"

text \<open>
  The object validated by \<^verbatim>\<open>createEventAction\<close>. \<^verbatim>\<open>Number(...)\<close> yields a double; its
  result type is the parameter \<open>'n\<close> and the conversion itself is an argument of the action.
\<close>

record 'n RawData =
  r_title :: "string option"
  r_description :: "string option"
  r_category :: "string option"
  r_status :: "string option"
  r_date :: "string option"
  r_endDate :: "string option"
  r_location :: "string option"
  r_address :: "string option"
  r_capacity :: 'n
  r_price :: 'n
  r_imageUrl :: "string option"
  r_organizerName :: "string option"
  r_organizerEmail :: "string option"
  r_tags :: "string list"

text \<open>A Zod issue, and the loop that groups the messages by \<^verbatim>\<open>issue.path.join('.')\<close>.\<close>

record Issue =
  i_path :: "string list"
  i_message :: string

fun join_dot :: "string list \<Rightarrow> string" where
  "join_dot [] = []"
| "join_dot [x] = x"
| "join_dot (x # y # ys) = x @ ''.'' @ join_dot (y # ys)"

fun push_error :: "string \<Rightarrow> string \<Rightarrow> (string \<times> string list) list \<Rightarrow> (string \<times> string list) list" where
  "push_error path msg [] = [(path, [msg])]"
| "push_error path msg ((k, ms) # rest) =
     (if k = path then (k, ms @ [msg]) # rest else (k, ms) # push_error path msg rest)"

fun collect_errors :: "Issue list \<Rightarrow> (string \<times> string list) list \<Rightarrow> (string \<times> string list) list" where
  "collect_errors [] errors = errors"
| "collect_errors (issue # issues) errors =
     collect_errors issues (push_error (join_dot (i_path issue)) (i_message issue) errors)"

text \<open>
  \<^verbatim>\<open>createEventAction\<close>, with its two local objects \<^verbatim>\<open>formValues\<close> and \<^verbatim>\<open>rawData\<close> as
  functions of their own. \<^verbatim>\<open>createEventSchema\<close> is a constant of the absent
  \<^verbatim>\<open>types/event.ts\<close>: its \<^verbatim>\<open>safeParse\<close> is an argument, \<open>Inl\<close> the issues of a failure,
  \<open>Inr\<close> the parsed data. \<^verbatim>\<open>prevState\<close> is not read. \<^verbatim>\<open>revalidatePath\<close> invalidates the
  framework's page cache and does not touch the store; it is left out.
\<close>

definition createEventAction_formValues :: "FormData \<Rightarrow> FormValues" where
  "createEventAction_formValues formData =
     \<lparr>fv_title = formData ''title'', fv_description = formData ''description'',
      fv_category = formData ''category'', fv_status = formData ''status'',
      fv_date = formData ''date'', fv_endDate = formData ''endDate'',
      fv_location = formData ''location'', fv_address = formData ''address'',
      fv_capacity = formData ''capacity'', fv_price = formData ''price'',
      fv_imageUrl = formData ''imageUrl'', fv_organizerName = formData ''organizerName'',
      fv_organizerEmail = formData ''organizerEmail'', fv_tags = formData ''tags''\<rparr>"

definition createEventAction_rawData :: "(string option \<Rightarrow> 'n) \<Rightarrow> FormValues \<Rightarrow> 'n RawData" where
  "createEventAction_rawData Number formValues =
     \<lparr>r_title = fv_title formValues, r_description = fv_description formValues,
      r_category = fv_category formValues, r_status = fv_status formValues,
      r_date = fv_date formValues, r_endDate = or_undefined (fv_endDate formValues),
      r_location = fv_location formValues, r_address = fv_address formValues,
      r_capacity = Number (fv_capacity formValues), r_price = Number (fv_price formValues),
      r_imageUrl = or_undefined (fv_imageUrl formValues),
      r_organizerName = fv_organizerName formValues,
      r_organizerEmail = fv_organizerEmail formValues,
      r_tags = split_tags (case fv_tags formValues of None \<Rightarrow> [] | Some t \<Rightarrow> t)\<rparr>"

definition createEventAction ::
  "('n RawData \<Rightarrow> Issue list + CreateData) \<Rightarrow> (string option \<Rightarrow> 'n) \<Rightarrow>
   FormState \<Rightarrow> FormData \<Rightarrow> string \<Rightarrow> string \<Rightarrow> Store \<Rightarrow> FormState \<times> Store" where
  "createEventAction createEventSchema Number prevState formData newId now events =
     (let formValues = createEventAction_formValues formData;
          rawData = createEventAction_rawData Number formValues
      in case createEventSchema rawData of
           Inl issues \<Rightarrow>
             (\<lparr>fs_success = False,
               fs_message = ''Por favor, corrige los errores en el formulario'',
               fs_errors = Some (collect_errors issues []),
               fs_values = Some formValues, fs_data = None\<rparr>, events)
         | Inr validated \<Rightarrow>
             (case createEvent validated newId now events of
                (event, events') \<Rightarrow>
                  (\<lparr>fs_success = True, fs_message = ''Evento creado correctamente'',
                    fs_errors = None, fs_values = None, fs_data = Some event\<rparr>, events')))"

text \<open>
  \<^verbatim>\<open>updateEventAction\<close> puts a key into \<^verbatim>\<open>rawData\<close> only when the form gave it a value, and
  validates with \<^verbatim>\<open>createEventSchema.partial()\<close>, again an argument.
\<close>

record 'n RawPatch =
  rp_title :: "string option"
  rp_description :: "string option"
  rp_category :: "string option"
  rp_status :: "string option"
  rp_date :: "string option"
  rp_endDate :: "string option"
  rp_location :: "string option"
  rp_address :: "string option"
  rp_capacity :: "'n option"
  rp_price :: "'n option"
  rp_imageUrl :: "string option"
  rp_organizerName :: "string option"
  rp_organizerEmail :: "string option"
  rp_tags :: "string list option"

definition updateEventAction_rawData :: "(string option \<Rightarrow> 'n) \<Rightarrow> FormData \<Rightarrow> 'n RawPatch" where
  "updateEventAction_rawData Number formData =
     \<lparr>rp_title = or_undefined (formData ''title''),
      rp_description = or_undefined (formData ''description''),
      rp_category = or_undefined (formData ''category''),
      rp_status = or_undefined (formData ''status''),
      rp_date = or_undefined (formData ''date''),
      rp_endDate = or_undefined (formData ''endDate''),
      rp_location = or_undefined (formData ''location''),
      rp_address = or_undefined (formData ''address''),
      rp_capacity =
        (if truthy (formData ''capacity'') then Some (Number (formData ''capacity'')) else None),
      rp_price =
        (if formData ''price'' \<noteq> None \<and> formData ''price'' \<noteq> Some []
         then Some (Number (formData ''price'')) else None),
      rp_imageUrl = or_undefined (formData ''imageUrl''),
      rp_organizerName = or_undefined (formData ''organizerName''),
      rp_organizerEmail = or_undefined (formData ''organizerEmail''),
      rp_tags = map_option split_tags (or_undefined (formData ''tags''))\<rparr>"

definition updateEventAction ::
  "('n RawPatch \<Rightarrow> Issue list + EventPatch) \<Rightarrow> (string option \<Rightarrow> 'n) \<Rightarrow>
   string \<Rightarrow> FormState \<Rightarrow> FormData \<Rightarrow> string \<Rightarrow> Store \<Rightarrow> FormState \<times> Store" where
  "updateEventAction partialSchema Number i prevState formData now events =
     (let rawData = updateEventAction_rawData Number formData
      in case partialSchema rawData of
           Inl issues \<Rightarrow>
             (\<lparr>fs_success = False,
               fs_message = ''Por favor, corrige los errores en el formulario'',
               fs_errors = Some (collect_errors issues []),
               fs_values = None, fs_data = None\<rparr>, events)
         | Inr validated \<Rightarrow>
             (case updateEvent i validated now events of
                (None, events') \<Rightarrow>
                  (\<lparr>fs_success = False,
                    fs_message = ''No se encontr'' @ [CHR 0xC3, CHR 0xB3] @ '' el evento a actualizar'',
                    fs_errors = None, fs_values = None, fs_data = None\<rparr>, events')
              | (Some event, events') \<Rightarrow>
                  (\<lparr>fs_success = True, fs_message = ''Evento actualizado correctamente'',
                    fs_errors = None, fs_values = None, fs_data = Some event\<rparr>, events')))"

text \<open>\<^verbatim>\<open>registerForEventAction\<close>: one message for every \<^verbatim>\<open>null\<close> of \<^verbatim>\<open>registerForEvent\<close>.\<close>

definition registerForEventAction :: "string \<Rightarrow> string \<Rightarrow> Store \<Rightarrow> FormState \<times> Store" where
  "registerForEventAction i now events =
     (case registerForEvent i now events of
        (None, events') \<Rightarrow>
          (\<lparr>fs_success = False,
            fs_message = ''No se pudo completar el registro. El evento puede estar lleno o no disponible.'',
            fs_errors = None, fs_values = None, fs_data = None\<rparr>, events')
      | (Some event, events') \<Rightarrow>
          (\<lparr>fs_success = True,
            fs_message = [CHR 0xC2, CHR 0xA1] @ ''Te has registrado correctamente!'',
            fs_errors = None, fs_values = None, fs_data = Some event\<rparr>, events'))"

text \<open>
  The creation form (\<^verbatim>\<open>EventForm\<close>): the status select is preset to
  \<^verbatim>\<open>(getValue('status') as string) ?? 'publicado'\<close>, where \<^verbatim>\<open>getValue\<close> takes a truthy
  \<^verbatim>\<open>state.values?.[field]\<close>, else a truthy \<^verbatim>\<open>initialData?.[field]\<close>, else \<^verbatim>\<open>undefined\<close>.
\<close>

definition initialState :: FormState where
  "initialState = \<lparr>fs_success = False, fs_message = [], fs_errors = None,
     fs_values = None, fs_data = None\<rparr>"

definition getValue_status :: "FormState \<Rightarrow> Event option \<Rightarrow> string option" where
  "getValue_status state initialData =
     (if truthy (case fs_values state of None \<Rightarrow> None | Some vs \<Rightarrow> fv_status vs)
      then (case fs_values state of None \<Rightarrow> None | Some vs \<Rightarrow> fv_status vs)
      else if truthy (map_option status initialData) then map_option status initialData
      else None)"

definition EventForm_status_default :: "FormState \<Rightarrow> Event option \<Rightarrow> string" where
  "EventForm_status_default state initialData =
     (case getValue_status state initialData of None \<Rightarrow> ''publicado'' | Some s \<Rightarrow> s)"

subsection \<open>Calls in flight\<close>

text \<open>
  Several calls of \<^verbatim>\<open>registerForEvent\<close> may be in flight at once: each is suspended at
  \<^verbatim>\<open>await delay(300)\<close>, and when it resumes it runs to its \<^verbatim>\<open>return\<close> without another
  \<^verbatim>\<open>await\<close>. JavaScript runs one continuation at a time, so a step of the system resumes
  one suspended call, in any order, and runs the rest of its body on the array as it is
  then. A call is \<open>Suspended\<close> with its argument or has \<open>Returned\<close> its result.
\<close>

datatype Call = Suspended string | Returned "Event option"

inductive resume :: "Store \<times> Call list \<Rightarrow> Store \<times> Call list \<Rightarrow> bool" where
  resumeI:
    "j < length calls \<Longrightarrow> calls ! j = Suspended i \<Longrightarrow>
     registerForEvent i now events = (r, events') \<Longrightarrow>
     resume (events, calls) (events', calls[j := Returned r])"

fun succeeded :: "Call \<Rightarrow> bool" where
  "succeeded (Returned (Some e)) = True"
| "succeeded (Returned None) = False"
| "succeeded (Suspended i) = False"

fun failed :: "Call \<Rightarrow> bool" where
  "failed (Returned None) = True"
| "failed (Returned (Some e)) = False"
| "failed (Suspended i) = False"

fun suspended :: "Call \<Rightarrow> bool" where
  "suspended (Suspended i) = True"
| "suspended (Returned r) = False"

text \<open>
  What stays true while \<open>n\<close> calls for the event \<open>e\<close> with id \<open>i\<close> are in flight: the stored
  event is \<open>e\<close> with one registration more for each call that has returned an event, its
  count is at most the capacity or still the first count, and when the event is published
  a call has returned \<^verbatim>\<open>null\<close> only once the count had reached the capacity.
\<close>

definition in_flight :: "string \<Rightarrow> Event \<Rightarrow> nat \<Rightarrow> Store \<times> Call list \<Rightarrow> bool" where
  "in_flight i e n cfg =
     (case cfg of (events, calls) \<Rightarrow>
        length calls = n \<and>
        (\<forall>c\<in>set calls. suspended c \<longrightarrow> c = Suspended i) \<and>
        (\<exists>k t. findIndex (\<lambda>x. event_id x = i) events = Some k \<and>
           events ! k = e\<lparr>registeredCount := registeredCount e + int (length (filter succeeded calls)),
                          updatedAt := t\<rparr>) \<and>
        registeredCount e + int (length (filter succeeded calls))
          \<le> max (registeredCount e) (capacity e) \<and>
        (status e = ''publicado'' \<and> (\<exists>c\<in>set calls. failed c) \<longrightarrow>
           capacity e \<le> registeredCount e + int (length (filter succeeded calls))))"

subsection \<open>Sample stores\<close>

text \<open>Three events after the seed data of \<^verbatim>\<open>events.ts\<close> (ids are generated at load time).\<close>

definition taller :: Event where
  "taller = \<lparr>event_id = ''c1'', title = ''Taller de React Server Components'',
     description = ''Taller practico de 4 horas'', category = ''taller'',
     status = ''publicado'', date = ''2026-01-28T10:00:00.000Z'',
     endDate = Some ''2026-01-28T14:00:00.000Z'', location = ''Campus Google Madrid'',
     address = ''Calle Moreno Nieto 2, 28005 Madrid'', capacity = 30, registeredCount = 28,
     price = 75, imageUrl = None, organizerName = ''React Madrid'',
     organizerEmail = ''hola@reactmadrid.dev'', tags = [''react'', ''hands-on''],
     createdAt = ''2025-12-10T09:00:00.000Z'', updatedAt = ''2025-12-22T11:00:00.000Z''\<rparr>"

definition hackathon :: Event where
  "hackathon = \<lparr>event_id = ''c2'', title = ''Hackathon IA para el Bien Social'',
     description = ''Hackathon de 48 horas'', category = ''otro'',
     status = ''borrador'', date = ''2026-03-22T09:00:00.000Z'',
     endDate = Some ''2026-03-24T18:00:00.000Z'', location = ''Impact Hub Madrid'',
     address = ''Calle Alameda 22, 28014 Madrid'', capacity = 150, registeredCount = 0,
     price = 25, imageUrl = None, organizerName = ''AI Spain'',
     organizerEmail = ''hackathon@aispain.org'', tags = [''hackathon'', ''ia''],
     createdAt = ''2025-12-26T10:00:00.000Z'', updatedAt = ''2025-12-26T10:00:00.000Z''\<rparr>"

definition agotado :: Event where
  "agotado = taller\<lparr>event_id := ''c3'', capacity := 5, registeredCount := 5\<rparr>"

definition sample_store :: Store where
  "sample_store = [taller, hackathon, agotado]"

text \<open>Two clock readings, and the workshop after one and after two registrations.\<close>

definition t1 :: string where
  "t1 = ''2026-01-02T08:30:00.000Z''"

definition t2 :: string where
  "t2 = ''2026-01-02T08:30:00.400Z''"

definition taller29 :: Event where
  "taller29 = taller\<lparr>registeredCount := 29, updatedAt := t1\<rparr>"

definition taller30 :: Event where
  "taller30 = taller\<lparr>registeredCount := 30, updatedAt := t2\<rparr>"

text \<open>The request \<^verbatim>\<open>{}\<close> of an update, and three creation inputs: a plain one, one that
  carries a count and a creation time of its own, and one with a negative capacity.\<close>

definition empty_patch :: EventPatch where
  "empty_patch = \<lparr>p_title = None, p_description = None, p_category = None, p_status = None,
     p_date = None, p_endDate = None, p_location = None, p_address = None, p_capacity = None,
     p_registeredCount = None, p_price = None, p_imageUrl = None, p_organizerName = None,
     p_organizerEmail = None, p_tags = None, p_updatedAt = None\<rparr>"

definition nuevo :: CreateData where
  "nuevo = \<lparr>d_title = ''Meetup de TypeScript'', d_description = ''Charlas cortas y networking'',
     d_category = ''networking'', d_status = ''publicado'', d_date = ''2026-04-10T18:00:00.000Z'',
     d_endDate = None, d_location = ''Campus Google Madrid'',
     d_address = ''Calle Moreno Nieto 2, 28005 Madrid'', d_capacity = 40, d_price = 0,
     d_imageUrl = None, d_organizerName = ''React Madrid'',
     d_organizerEmail = ''hola@reactmadrid.dev'', d_tags = [''typescript''],
     d_id = None, d_registeredCount = None, d_createdAt = None, d_updatedAt = None\<rparr>"

definition con_cuenta :: CreateData where
  "con_cuenta = nuevo\<lparr>d_registeredCount := Some 7,
     d_createdAt := Some ''2020-01-01T00:00:00.000Z''\<rparr>"

definition negativo :: CreateData where
  "negativo = nuevo\<lparr>d_capacity := - 5\<rparr>"

section \<open>Properties\<close>

subsection \<open>Lookup\<close>

lemma findIndex_Some_iff:
  "findIndex P xs = Some k \<longleftrightarrow> k < length xs \<and> P (xs ! k) \<and> (\<forall>j<k. \<not> P (xs ! j))"
proof (induction xs arbitrary: k)
  case Nil
  show ?case by simp
next
  case (Cons x xs)
  show ?case
  proof (cases "P x")
    case True
    then show ?thesis by (cases k) auto
  next
    case False
    show ?thesis
    proof (cases k)
      case 0
      with False show ?thesis by auto
    next
      case (Suc m)
      have "(\<forall>j<Suc m. \<not> P ((x # xs) ! j)) \<longleftrightarrow> (\<forall>j<m. \<not> P (xs ! j))"
        using False by (auto simp: less_Suc_eq_0_disj)
      with False Suc Cons.IH [of m] show ?thesis by auto
    qed
  qed
qed

lemma findIndex_None_iff: "findIndex P xs = None \<longleftrightarrow> (\<forall>x\<in>set xs. \<not> P x)"
  by (induction xs) auto

lemma find_findIndex: "find P xs = map_option (\<lambda>k. xs ! k) (findIndex P xs)"
  by (induction xs) (auto simp: option.map_comp o_def)

lemma findIndex_update:
  assumes "findIndex P xs = Some k" and "P y"
  shows "findIndex P (xs[k := y]) = Some k"
  using assms by (simp add: findIndex_Some_iff)

lemmas sample_defs = sample_store_def taller_def hackathon_def agotado_def t1_def

subsection \<open>Registration: the outcomes of one call\<close>

lemma registerForEvent_cases:
  "registerForEvent i now events = (None, events) \<or>
   (\<exists>k. findIndex (\<lambda>e. event_id e = i) events = Some k \<and>
        registeredCount (events ! k) < capacity (events ! k) \<and>
        status (events ! k) = ''publicado'' \<and>
        registerForEvent i now events =
          (Some ((events ! k)\<lparr>registeredCount := registeredCount (events ! k) + 1, updatedAt := now\<rparr>),
           events[k := (events ! k)\<lparr>registeredCount := registeredCount (events ! k) + 1, updatedAt := now\<rparr>]))"
  by (auto simp: registerForEvent_def Let_def split: option.splits)

lemma register_hackathon: "registerForEvent ''c2'' t1 sample_store = (None, sample_store)"
  by (simp add: registerForEvent_def Let_def sample_defs)

lemma register_agotado: "registerForEvent ''c3'' t1 sample_store = (None, sample_store)"
  by (simp add: registerForEvent_def Let_def sample_defs)

lemma register_unknown: "registerForEvent ''zz'' t1 sample_store = (None, sample_store)"
  by (simp add: registerForEvent_def Let_def sample_defs)

lemma sample_store_within_capacity: "list_all within_capacity sample_store"
  by (simp add: sample_defs within_capacity_def)

text \<open>
  \<^bold>\<open>C1.\<close> \<^verbatim>\<open>registerForEvent\<close> keeps \<open>0 \<le> registeredCount \<le> capacity\<close> for every event of the
  store: if every event satisfies it before a call, every event satisfies it after the
  call, whatever the id and whatever the call returns. In particular no count becomes
  negative.
\<close>

theorem registerForEvent_preserves_invariant:
  assumes "\<forall>e\<in>set events. within_capacity e"
  shows "\<forall>e\<in>set (snd (registerForEvent i now events)). within_capacity e"
proof -
  from registerForEvent_cases [of i now events] show ?thesis
  proof
    assume "registerForEvent i now events = (None, events)"
    with assms show ?thesis by simp
  next
    assume "\<exists>k. findIndex (\<lambda>e. event_id e = i) events = Some k \<and>
        registeredCount (events ! k) < capacity (events ! k) \<and>
        status (events ! k) = ''publicado'' \<and>
        registerForEvent i now events =
          (Some ((events ! k)\<lparr>registeredCount := registeredCount (events ! k) + 1, updatedAt := now\<rparr>),
           events[k := (events ! k)\<lparr>registeredCount := registeredCount (events ! k) + 1, updatedAt := now\<rparr>])"
    then obtain k where k: "findIndex (\<lambda>e. event_id e = i) events = Some k"
      and lt: "registeredCount (events ! k) < capacity (events ! k)"
      and r: "snd (registerForEvent i now events) =
           events[k := (events ! k)\<lparr>registeredCount := registeredCount (events ! k) + 1, updatedAt := now\<rparr>]"
      by auto
    from k have "k < length events" by (simp add: findIndex_Some_iff)
    with assms have "within_capacity (events ! k)" by simp
    with lt have "within_capacity
        ((events ! k)\<lparr>registeredCount := registeredCount (events ! k) + 1, updatedAt := now\<rparr>)"
      by (simp add: within_capacity_def)
    with assms r show ?thesis
      by (auto dest!: set_update_subset_insert [THEN subsetD])
  qed
qed

theorem registerForEvent_preserves_invariant_witness:
  "list_all within_capacity sample_store \<and>
   list_all within_capacity (snd (registerForEvent ''c1'' t1 sample_store))"
proof -
  have h: "\<forall>e\<in>set sample_store. within_capacity e"
    using sample_store_within_capacity by (simp add: list_all_iff)
  from registerForEvent_preserves_invariant [OF h, of "''c1''" t1] sample_store_within_capacity
  show ?thesis by (simp add: list_all_iff)
qed

text \<open>
  \<^bold>\<open>C5.\<close> A call for a published event with a free place succeeds; it returns the event with
  \<^verbatim>\<open>registeredCount\<close> one higher and \<^verbatim>\<open>updatedAt\<close> set to the clock reading of the call, every
  other field as it was; in the store exactly the position of that event is replaced by
  the returned event, and every other event is unchanged. The stamp is the clock reading
  whether or not that is later than the stored stamp: at a reading equal to the stored
  stamp \<^verbatim>\<open>updatedAt\<close> stays as it was and only the count changes.
\<close>

theorem registerForEvent_success_frame:
  assumes "fst (getEventById i events) = Some e"
    and "status e = ''publicado''" and "registeredCount e < capacity e"
  shows "fst (registerForEvent i now events) =
           Some (e\<lparr>registeredCount := registeredCount e + 1, updatedAt := now\<rparr>) \<and>
         (\<exists>k<length events. events ! k = e \<and>
            snd (registerForEvent i now events) =
              events[k := e\<lparr>registeredCount := registeredCount e + 1, updatedAt := now\<rparr>] \<and>
            (\<forall>j<length events. j \<noteq> k \<longrightarrow> snd (registerForEvent i now events) ! j = events ! j)) \<and>
         (now = updatedAt e \<longrightarrow>
            fst (registerForEvent i now events) = Some (e\<lparr>registeredCount := registeredCount e + 1\<rparr>))"
proof -
  from assms(1) obtain k where k: "findIndex (\<lambda>x. event_id x = i) events = Some k"
    and ek: "events ! k = e"
    by (auto simp: getEventById_def find_findIndex)
  from k have kl: "k < length events" by (simp add: findIndex_Some_iff)
  from k ek assms(2,3) have r: "registerForEvent i now events =
     (Some (e\<lparr>registeredCount := registeredCount e + 1, updatedAt := now\<rparr>),
      events[k := e\<lparr>registeredCount := registeredCount e + 1, updatedAt := now\<rparr>])"
    by (simp add: registerForEvent_def Let_def)
  from kl ek r show ?thesis by auto
qed

theorem registerForEvent_success_frame_witness:
  "fst (getEventById ''c1'' sample_store) = Some taller \<and> status taller = ''publicado'' \<and>
   registeredCount taller < capacity taller \<and>
   fst (registerForEvent ''c1'' t1 sample_store) =
     Some (taller\<lparr>registeredCount := 29, updatedAt := t1\<rparr>)"
proof -
  have h1: "fst (getEventById ''c1'' sample_store) = Some taller"
    by (simp add: getEventById_def sample_defs)
  have h2: "status taller = ''publicado''" by (simp add: taller_def)
  have h3: "registeredCount taller < capacity taller" by (simp add: taller_def)
  have c: "registeredCount taller + 1 = 29" by (simp add: taller_def)
  from registerForEvent_success_frame [OF h1 h2 h3, of t1] c
  have "fst (registerForEvent ''c1'' t1 sample_store) =
      Some (taller\<lparr>registeredCount := 29, updatedAt := t1\<rparr>)"
    by simp
  with h1 h2 h3 show ?thesis by simp
qed

text \<open>
  \<^verbatim>\<open>updatedAt\<close> is not always advanced. A first registration at the reading \<open>t1\<close> stamps the
  workshop with \<open>t1\<close>; a second one that resumes at the same reading (the clock counts
  milliseconds) succeeds, raises the count to 30 and leaves \<^verbatim>\<open>updatedAt\<close> equal to the stamp
  it had.
\<close>

theorem same_reading_counterexample:
  "registerForEvent ''c1'' t1 [taller, hackathon] = (Some taller29, [taller29, hackathon]) \<and>
   fst (getEventById ''c1'' [taller29, hackathon]) = Some taller29 \<and>
   status taller29 = ''publicado'' \<and> registeredCount taller29 < capacity taller29 \<and>
   fst (registerForEvent ''c1'' t1 [taller29, hackathon]) =
     Some (taller29\<lparr>registeredCount := 30\<rparr>) \<and>
   updatedAt (taller29\<lparr>registeredCount := 30\<rparr>) = updatedAt taller29"
  by (simp add: registerForEvent_def getEventById_def Let_def taller_def taller29_def)

text \<open>
  \<^bold>\<open>C6.\<close> A rejected call writes nothing: whenever \<^verbatim>\<open>registerForEvent\<close> returns \<^verbatim>\<open>null\<close> (the id
  is unknown, the event is full, or it is not published), the store after the call is
  the store before it.
\<close>

theorem registerForEvent_failure_atomic:
  "fst (registerForEvent i now events) = None \<Longrightarrow> snd (registerForEvent i now events) = events"
  using registerForEvent_cases [of i now events] by auto

theorem registerForEvent_failure_atomic_witness:
  "fst (registerForEvent ''c2'' t1 sample_store) = None \<and>
   snd (registerForEvent ''c2'' t1 sample_store) = sample_store"
proof -
  have h: "fst (registerForEvent ''c2'' t1 sample_store) = None"
    by (simp add: register_hackathon)
  from h registerForEvent_failure_atomic [OF h] show ?thesis by simp
qed

subsection \<open>Reading\<close>

text \<open>
  \<^bold>\<open>C9.\<close> Reading is idempotent: \<^verbatim>\<open>getEventById\<close> leaves the store as it is, and a second call
  with the same id in the store the first call left returns the same result (both
  \<^verbatim>\<open>null\<close>, or the same event).
\<close>

theorem getEventById_idempotent:
  "snd (getEventById i events) = events \<and>
   getEventById i (snd (getEventById i events)) = getEventById i events"
  by (simp add: getEventById_def)

subsection \<open>Calls in flight\<close>

lemma count_update:
  assumes "j < length xs"
  shows "length (filter P (xs[j := y])) + (if P (xs ! j) then 1 else 0) =
         length (filter P xs) + (if P y then 1 else 0)"
  using assms
proof (induction xs arbitrary: j)
  case Nil
  then show ?case by simp
next
  case (Cons x xs)
  then show ?case by (cases j) auto
qed

lemma succeeded_plus_failed:
  assumes "\<forall>c\<in>set calls. \<not> suspended c"
  shows "length (filter succeeded calls) + length (filter failed calls) = length calls"
  using assms
proof (induction calls)
  case Nil
  show ?case by simp
next
  case (Cons c calls)
  then show ?case by (cases c rule: succeeded.cases) auto
qed

text \<open>
  Every call returns: from any state of the store and of the calls in flight there is a
  run in which all suspended calls have resumed and returned.
\<close>

lemma all_calls_return:
  "\<exists>events' calls'. resume\<^sup>*\<^sup>* (events, calls) (events', calls') \<and>
      length calls' = length calls \<and> (\<forall>c\<in>set calls'. \<not> suspended c)"
proof (induction "length (filter suspended calls)" arbitrary: events calls)
  case 0
  then have "\<forall>c\<in>set calls. \<not> suspended c" by (simp add: filter_empty_conv)
  then show ?case by blast
next
  case (Suc m)
  then have "filter suspended calls \<noteq> []" by auto
  then obtain c where "c \<in> set calls" and "suspended c"
    by (auto simp: filter_empty_conv)
  then obtain j i where j: "j < length calls" and cj: "calls ! j = Suspended i"
    by (metis in_set_conv_nth suspended.elims(2))
  obtain r events1 where r: "registerForEvent i t1 events = (r, events1)"
    by (cases "registerForEvent i t1 events")
  let ?calls1 = "calls[j := Returned r]"
  have step: "resume (events, calls) (events1, ?calls1)"
    using resumeI [OF j cj r] .
  have "length (filter suspended ?calls1) = m"
    using count_update [OF j, of suspended "Returned r"] cj Suc(2) by simp
  from Suc(1) [OF this [symmetric], of events1]
  obtain events' calls' where "resume\<^sup>*\<^sup>* (events1, ?calls1) (events', calls')"
    and "length calls' = length ?calls1" and "\<forall>c\<in>set calls'. \<not> suspended c"
    by blast
  with step have "resume\<^sup>*\<^sup>* (events, calls) (events', calls') \<and>
      length calls' = length calls \<and> (\<forall>c\<in>set calls'. \<not> suspended c)"
    by (simp add: converse_rtranclp_into_rtranclp)
  then show ?case by blast
qed

lemma in_flight_resume:
  assumes inv: "in_flight i e n cfg" and step: "resume cfg cfg'"
  shows "in_flight i e n cfg'"
  using step
proof cases
  case (resumeI j calls i' now events r events')
  let ?s = "length (filter succeeded calls)"
  from inv resumeI(1) have len: "length calls = n"
    and susp: "\<forall>c\<in>set calls. suspended c \<longrightarrow> c = Suspended i"
    and le: "registeredCount e + int ?s \<le> max (registeredCount e) (capacity e)"
    and full: "status e = ''publicado'' \<and> (\<exists>c\<in>set calls. failed c) \<longrightarrow>
                 capacity e \<le> registeredCount e + int ?s"
    by (simp_all add: in_flight_def)
  from inv resumeI(1) obtain k t where k: "findIndex (\<lambda>x. event_id x = i) events = Some k"
    and ek: "events ! k = e\<lparr>registeredCount := registeredCount e + int ?s, updatedAt := t\<rparr>"
    by (auto simp: in_flight_def)
  from susp resumeI(3,4) have i': "i' = i"
    by (metis Call.inject(1) nth_mem suspended.simps(1))
  have nsj: "\<not> succeeded (calls ! j)" and nfj: "\<not> failed (calls ! j)"
    using resumeI(4) by simp_all
  have susp': "\<forall>c\<in>set (calls[j := Returned r]). suspended c \<longrightarrow> c = Suspended i"
    using susp by (auto dest!: set_update_subset_insert [THEN subsetD])
  show ?thesis
  proof (cases r)
    case None
    with resumeI(5) i' k ek have ev: "events' = events"
      and why: "capacity e \<le> registeredCount e + int ?s \<or> status e \<noteq> ''publicado''"
      by (auto simp: registerForEvent_def Let_def split: if_splits)
    have cnt: "length (filter succeeded (calls[j := Returned r])) = ?s"
      using count_update [of j calls succeeded "Returned r"] resumeI(3) nsj None by simp
    from why have "status e = ''publicado'' \<longrightarrow> capacity e \<le> registeredCount e + int ?s"
      by auto
    with len susp' k ek le cnt ev resumeI(2) show ?thesis
      by (auto simp: in_flight_def)
  next
    case (Some ev')
    with resumeI(5) i' k ek have lt: "registeredCount e + int ?s < capacity e"
      and ev: "events' = events[k := (events ! k)\<lparr>registeredCount := registeredCount (events ! k) + 1, updatedAt := now\<rparr>]"
      by (auto simp: registerForEvent_def Let_def split: if_splits)
    have cnt: "length (filter succeeded (calls[j := Returned r])) = Suc ?s"
      using count_update [of j calls succeeded "Returned r"] resumeI(3) nsj Some by simp
    from k have kl: "k < length events" by (simp add: findIndex_Some_iff)
    have k': "findIndex (\<lambda>x. event_id x = i) events' = Some k"
      unfolding ev using k ek by (intro findIndex_update) (simp_all add: findIndex_Some_iff)
    have ek': "events' ! k = e\<lparr>registeredCount := registeredCount e + int (Suc ?s), updatedAt := now\<rparr>"
      unfolding ev using kl ek by simp
    from lt full have nofail: "status e = ''publicado'' \<longrightarrow> (\<forall>c\<in>set calls. \<not> failed c)"
      by auto
    have nofail': "status e = ''publicado'' \<longrightarrow> (\<forall>c\<in>set (calls[j := Returned r]). \<not> failed c)"
      using nofail Some by (auto dest!: set_update_subset_insert [THEN subsetD])
    from lt have le': "registeredCount e + int (Suc ?s) \<le> max (registeredCount e) (capacity e)"
      by simp
    show ?thesis
      unfolding in_flight_def resumeI(2) using len susp' k' ek' le' nofail' cnt
      by (simp only: prod.case length_list_update) blast
  qed
qed

lemma in_flight_run:
  assumes "resume\<^sup>*\<^sup>* cfg cfg'" and "in_flight i e n cfg"
  shows "in_flight i e n cfg'"
  using assms by (induction rule: rtranclp_induct) (auto intro: in_flight_resume)

lemma in_flight_start:
  assumes "fst (getEventById i events) = Some e"
  shows "in_flight i e n (events, replicate n (Suspended i))"
proof -
  from assms obtain k where k: "findIndex (\<lambda>x. event_id x = i) events = Some k"
    and ek: "events ! k = e"
    by (auto simp: getEventById_def find_findIndex)
  have none: "filter succeeded (replicate n (Suspended i)) = []"
    by (simp add: filter_empty_conv)
  from ek have "events ! k = e\<lparr>registeredCount := registeredCount e + int 0, updatedAt := updatedAt e\<rparr>"
    by simp
  with k have "\<exists>k t. findIndex (\<lambda>x. event_id x = i) events = Some k \<and>
      events ! k = e\<lparr>registeredCount := registeredCount e + int 0, updatedAt := t\<rparr>"
    by blast
  with none show ?thesis
    by (simp add: in_flight_def)
qed

text \<open>
  \<^bold>\<open>C2.\<close> Take \<open>n\<close> calls of \<^verbatim>\<open>registerForEvent\<close> for one event, all in flight at once, and
  let them resume in any order, any number of them. The count of the stored event is
  then its first count plus one for each call that has returned the event, the capacity
  is as it was, and the count does not exceed it if the first count did not. If the event
  is published and within its capacity, has \<open>k = capacity - registeredCount\<close> places left
  with \<open>k < n\<close>, and all calls have returned, then exactly \<open>k\<close> calls have returned the event
  and the other \<open>n - k\<close> have returned the bare \<^verbatim>\<open>null\<close>, which names no reason.
\<close>

theorem concurrent_registrations:
  assumes run: "resume\<^sup>*\<^sup>* (events, replicate n (Suspended i)) (events', calls')"
    and found: "fst (getEventById i events) = Some e"
  shows "\<exists>e'. fst (getEventById i events') = Some e' \<and>
           registeredCount e' = registeredCount e + int (length (filter succeeded calls')) \<and>
           capacity e' = capacity e \<and>
           (registeredCount e \<le> capacity e \<longrightarrow> registeredCount e' \<le> capacity e') \<and>
           (status e = ''publicado'' \<and> registeredCount e \<le> capacity e \<and>
            (\<forall>c\<in>set calls'. \<not> suspended c) \<and> capacity e - registeredCount e < int n \<longrightarrow>
              int (length (filter succeeded calls')) = capacity e - registeredCount e \<and>
              int (length (filter failed calls')) = int n - (capacity e - registeredCount e) \<and>
              (\<forall>c\<in>set calls'. succeeded c \<or> c = Returned None))"
proof -
  let ?s = "length (filter succeeded calls')"
  have inv: "in_flight i e n (events', calls')"
    using in_flight_run [OF run in_flight_start [OF found]] .
  then obtain k t where k: "findIndex (\<lambda>x. event_id x = i) events' = Some k"
    and ek: "events' ! k = e\<lparr>registeredCount := registeredCount e + int ?s, updatedAt := t\<rparr>"
    by (auto simp: in_flight_def)
  from inv have len: "length calls' = n"
    and bound: "registeredCount e + int ?s \<le> max (registeredCount e) (capacity e)"
    and full: "status e = ''publicado'' \<and> (\<exists>c\<in>set calls'. failed c) \<longrightarrow>
                 capacity e \<le> registeredCount e + int ?s"
    by (simp_all add: in_flight_def)
  let ?e' = "e\<lparr>registeredCount := registeredCount e + int ?s, updatedAt := t\<rparr>"
  from k ek have get: "fst (getEventById i events') = Some ?e'"
    by (simp add: getEventById_def find_findIndex)
  from bound have within: "registeredCount e \<le> capacity e \<longrightarrow> registeredCount ?e' \<le> capacity ?e'"
    by (simp add: max_def split: if_splits)
  have exact: "int ?s = capacity e - registeredCount e \<and>
               int (length (filter failed calls')) = int n - (capacity e - registeredCount e) \<and>
               (\<forall>c\<in>set calls'. succeeded c \<or> c = Returned None)"
    if pub: "status e = ''publicado''" and le: "registeredCount e \<le> capacity e"
      and alldone: "\<forall>c\<in>set calls'. \<not> suspended c"
      and more: "capacity e - registeredCount e < int n"
  proof -
    from succeeded_plus_failed [OF alldone] len
    have sum: "?s + length (filter failed calls') = n" by simp
    from bound le have "registeredCount e + int ?s \<le> capacity e"
      by (simp add: max_def split: if_splits)
    with more have "int ?s < int n" by linarith
    with sum have "0 < length (filter failed calls')" by linarith
    then have "\<exists>c\<in>set calls'. failed c"
      by (metis filter_False length_greater_0_conv list.size(3))
    with full pub have "capacity e \<le> registeredCount e + int ?s" by blast
    with \<open>registeredCount e + int ?s \<le> capacity e\<close> sum
    have counts: "int ?s = capacity e - registeredCount e \<and>
        int (length (filter failed calls')) = int n - (capacity e - registeredCount e)"
      by linarith
    have "succeeded c \<or> c = Returned None" if "c \<in> set calls'" for c
      using alldone that by (cases c rule: succeeded.cases) auto
    with counts show ?thesis by blast
  qed
  from get within exact show ?thesis by (intro exI [of _ ?e']) simp
qed

lemma run_taller:
  "resume\<^sup>*\<^sup>* ([taller, hackathon], replicate 3 (Suspended ''c1''))
     ([taller30, hackathon], [Returned None, Returned (Some taller30), Returned (Some taller29)])"
proof -
  have r1: "registerForEvent ''c1'' t1 [taller, hackathon] = (Some taller29, [taller29, hackathon])"
    by (simp add: registerForEvent_def Let_def taller_def taller29_def)
  have r2: "registerForEvent ''c1'' t2 [taller29, hackathon] = (Some taller30, [taller30, hackathon])"
    by (simp add: registerForEvent_def Let_def taller_def taller29_def taller30_def)
  have r3: "registerForEvent ''c1'' t2 [taller30, hackathon] = (None, [taller30, hackathon])"
    by (simp add: registerForEvent_def Let_def taller_def taller30_def)
  have s1: "resume ([taller, hackathon], [Suspended ''c1'', Suspended ''c1'', Suspended ''c1''])
      ([taller29, hackathon], [Suspended ''c1'', Suspended ''c1'', Returned (Some taller29)])"
    using resumeI [of 2 "[Suspended ''c1'', Suspended ''c1'', Suspended ''c1'']" "''c1''" t1, OF _ _ r1]
    by simp
  have s2: "resume ([taller29, hackathon], [Suspended ''c1'', Suspended ''c1'', Returned (Some taller29)])
      ([taller30, hackathon], [Suspended ''c1'', Returned (Some taller30), Returned (Some taller29)])"
    using resumeI [of 1 "[Suspended ''c1'', Suspended ''c1'', Returned (Some taller29)]" "''c1''" t2, OF _ _ r2]
    by simp
  have s3: "resume ([taller30, hackathon], [Suspended ''c1'', Returned (Some taller30), Returned (Some taller29)])
      ([taller30, hackathon], [Returned None, Returned (Some taller30), Returned (Some taller29)])"
    using resumeI [of 0 "[Suspended ''c1'', Returned (Some taller30), Returned (Some taller29)]" "''c1''" t2, OF _ _ r3]
    by simp
  have "replicate 3 (Suspended ''c1'') = [Suspended ''c1'', Suspended ''c1'', Suspended ''c1'']"
    by (simp add: numeral_3_eq_3)
  with s1 s2 s3 show ?thesis by simp
qed

theorem concurrent_registrations_witness:
  "resume\<^sup>*\<^sup>* ([taller, hackathon], replicate 3 (Suspended ''c1''))
     ([taller30, hackathon], [Returned None, Returned (Some taller30), Returned (Some taller29)]) \<and>
   fst (getEventById ''c1'' [taller, hackathon]) = Some taller \<and>
   registeredCount taller \<le> capacity taller \<and> status taller = ''publicado'' \<and>
   capacity taller - registeredCount taller < int 3 \<and>
   int (length (filter succeeded [Returned None, Returned (Some taller30), Returned (Some taller29)])) = 2 \<and>
   int (length (filter failed [Returned None, Returned (Some taller30), Returned (Some taller29)])) = 1"
proof -
  have h1: "fst (getEventById ''c1'' [taller, hackathon]) = Some taller"
    by (simp add: getEventById_def taller_def)
  have h2: "registeredCount taller \<le> capacity taller" by (simp add: taller_def)
  have h3: "status taller = ''publicado''" by (simp add: taller_def)
  have h4: "capacity taller - registeredCount taller < int 3" by (simp add: taller_def)
  have k: "capacity taller - registeredCount taller = 2" by (simp add: taller_def)
  from concurrent_registrations [OF run_taller h1] h2 h3 h4 k
  have "int (length (filter succeeded [Returned None, Returned (Some taller30), Returned (Some taller29)])) = 2 \<and>
   int (length (filter failed [Returned None, Returned (Some taller30), Returned (Some taller29)])) = 1"
    by simp
  with run_taller h1 h2 h3 h4 show ?thesis by simp
qed

text \<open>
  The calls that fail do not fail with \<^verbatim>\<open>Full\<close>. Two calls for the published workshop with
  one place left: one returns the event, the other returns \<^verbatim>\<open>null\<close>; and what the call that
  found the event full returns is what a call for an unknown id and a call for a draft
  return in the same store, from the access function and from the action.
\<close>

theorem full_without_reason_counterexample:
  "fst (getEventById ''c1'' [taller29, hackathon]) = Some taller29 \<and>
   status taller29 = ''publicado'' \<and> capacity taller29 - registeredCount taller29 = 1 \<and>
   resume\<^sup>*\<^sup>* ([taller29, hackathon], [Suspended ''c1'', Suspended ''c1''])
     ([taller30, hackathon], [Returned (Some taller30), Returned None]) \<and>
   capacity taller30 \<le> registeredCount taller30 \<and>
   registerForEvent ''c1'' t2 [taller30, hackathon] = (None, [taller30, hackathon]) \<and>
   registerForEvent ''zz'' t2 [taller30, hackathon] = (None, [taller30, hackathon]) \<and>
   registerForEvent ''c2'' t2 [taller30, hackathon] = (None, [taller30, hackathon]) \<and>
   registerForEventAction ''c1'' t2 [taller30, hackathon] =
     registerForEventAction ''zz'' t2 [taller30, hackathon] \<and>
   registerForEventAction ''c1'' t2 [taller30, hackathon] =
     registerForEventAction ''c2'' t2 [taller30, hackathon]"
proof -
  have r1: "registerForEvent ''c1'' t2 [taller29, hackathon] = (Some taller30, [taller30, hackathon])"
    by (simp add: registerForEvent_def Let_def taller_def taller29_def taller30_def)
  have r2: "registerForEvent ''c1'' t2 [taller30, hackathon] = (None, [taller30, hackathon])"
    by (simp add: registerForEvent_def Let_def taller_def taller30_def)
  have r3: "registerForEvent ''zz'' t2 [taller30, hackathon] = (None, [taller30, hackathon])"
    by (simp add: registerForEvent_def Let_def taller_def taller30_def hackathon_def)
  have r4: "registerForEvent ''c2'' t2 [taller30, hackathon] = (None, [taller30, hackathon])"
    by (simp add: registerForEvent_def Let_def taller_def taller30_def hackathon_def)
  have s1: "resume ([taller29, hackathon], [Suspended ''c1'', Suspended ''c1''])
      ([taller30, hackathon], [Returned (Some taller30), Suspended ''c1''])"
    using resumeI [of 0 "[Suspended ''c1'', Suspended ''c1'']" "''c1''" t2, OF _ _ r1] by simp
  have s2: "resume ([taller30, hackathon], [Returned (Some taller30), Suspended ''c1''])
      ([taller30, hackathon], [Returned (Some taller30), Returned None])"
    using resumeI [of 1 "[Returned (Some taller30), Suspended ''c1'']" "''c1''" t2, OF _ _ r2] by simp
  have g: "fst (getEventById ''c1'' [taller29, hackathon]) = Some taller29"
    by (simp add: getEventById_def taller29_def taller_def)
  have f: "status taller29 = ''publicado''" "capacity taller29 - registeredCount taller29 = 1"
    "capacity taller30 \<le> registeredCount taller30"
    by (simp_all add: taller29_def taller30_def taller_def)
  from s1 s2 g f r2 r3 r4 show ?thesis
    by (simp add: registerForEventAction_def)
qed

subsection \<open>Rejections\<close>

text \<open>
  \<^bold>\<open>C3.\<close> A rejected call does not say which policy was violated. For an unknown id, for a
  full event and for an event that is not published alike, \<^verbatim>\<open>registerForEvent\<close> returns
  \<^verbatim>\<open>null\<close> and leaves the store alone, and \<^verbatim>\<open>registerForEventAction\<close> returns one and the
  same state: \<^verbatim>\<open>success: false\<close> with a single fixed message and no reason.
\<close>

theorem registration_rejections_alike:
  assumes "fst (getEventById i events) = None \<or>
           (\<exists>e. fst (getEventById i events) = Some e \<and>
                (capacity e \<le> registeredCount e \<or> status e \<noteq> ''publicado''))"
  shows "registerForEvent i now events = (None, events) \<and>
         registerForEventAction i now events =
           (\<lparr>fs_success = False,
             fs_message = ''No se pudo completar el registro. El evento puede estar lleno o no disponible.'',
             fs_errors = None, fs_values = None, fs_data = None\<rparr>, events)"
proof -
  have "registerForEvent i now events = (None, events)"
    using assms
    by (auto simp: registerForEvent_def getEventById_def find_findIndex Let_def split: option.splits)
  then show ?thesis by (simp add: registerForEventAction_def)
qed

theorem registration_rejections_alike_witness:
  "fst (getEventById ''c3'' sample_store) = Some agotado \<and>
   capacity agotado \<le> registeredCount agotado \<and>
   registerForEvent ''c3'' t1 sample_store = (None, sample_store) \<and>
   fs_success (fst (registerForEventAction ''c3'' t1 sample_store)) = False"
proof -
  have g: "fst (getEventById ''c3'' sample_store) = Some agotado"
    by (simp add: getEventById_def sample_defs)
  have f: "capacity agotado \<le> registeredCount agotado"
    by (simp add: agotado_def)
  from g f have h: "fst (getEventById ''c3'' sample_store) = None \<or>
           (\<exists>e. fst (getEventById ''c3'' sample_store) = Some e \<and>
                (capacity e \<le> registeredCount e \<or> status e \<noteq> ''publicado''))"
    by blast
  from registration_rejections_alike [OF h, of t1] g f show ?thesis by simp
qed

text \<open>
  Three rejections with three different causes (no event \<^verbatim>\<open>zz\<close>; a draft with free places;
  a published event that is full) give equal results, from the access function and from
  the action: the returned value does not tell the causes apart.
\<close>

theorem rejection_reasons_counterexample:
  "fst (getEventById ''zz'' sample_store) = None \<and>
   fst (getEventById ''c2'' sample_store) = Some hackathon \<and>
   status hackathon = ''borrador'' \<and> registeredCount hackathon < capacity hackathon \<and>
   fst (getEventById ''c3'' sample_store) = Some agotado \<and>
   status agotado = ''publicado'' \<and> capacity agotado \<le> registeredCount agotado \<and>
   registerForEvent ''zz'' t1 sample_store = registerForEvent ''c2'' t1 sample_store \<and>
   registerForEvent ''c2'' t1 sample_store = registerForEvent ''c3'' t1 sample_store \<and>
   registerForEventAction ''zz'' t1 sample_store = registerForEventAction ''c2'' t1 sample_store \<and>
   registerForEventAction ''c2'' t1 sample_store = registerForEventAction ''c3'' t1 sample_store"
proof -
  have g: "fst (getEventById ''zz'' sample_store) = None"
    "fst (getEventById ''c2'' sample_store) = Some hackathon"
    "fst (getEventById ''c3'' sample_store) = Some agotado"
    by (simp_all add: getEventById_def sample_defs)
  have f: "status hackathon = ''borrador''" "registeredCount hackathon < capacity hackathon"
    "status agotado = ''publicado''" "capacity agotado \<le> registeredCount agotado"
    by (simp_all add: sample_defs)
  from g f show ?thesis
    by (simp add: registerForEventAction_def register_unknown register_hackathon register_agotado)
qed

subsection \<open>Updating\<close>

lemma updateEvent_found:
  assumes "findIndex (\<lambda>event. event_id event = i) events = Some k"
  shows "\<exists>e'. updateEvent i patch now events = (Some e', events[k := e']) \<and>
           event_id e' = i \<and> createdAt e' = createdAt (events ! k) \<and> updatedAt e' = now \<and>
           capacity e' = spread (capacity (events ! k)) (p_capacity patch) \<and>
           registeredCount e' = spread (registeredCount (events ! k)) (p_registeredCount patch) \<and>
           status e' = spread (status (events ! k)) (p_status patch)"
proof -
  from assms have "event_id (events ! k) = i" by (simp add: findIndex_Some_iff)
  with assms show ?thesis by (simp add: updateEvent_def Let_def)
qed

lemma updateEvent_missing:
  assumes "findIndex (\<lambda>event. event_id event = i) events = None"
  shows "updateEvent i patch now events = (None, events)"
  using assms by (simp add: updateEvent_def)

text \<open>
  \<^bold>\<open>C4.\<close> The capacity may be edited after creation, and \<^verbatim>\<open>updateEvent\<close> stores what the
  request names without comparing it with \<^verbatim>\<open>registeredCount\<close>: after a successful update
  the stored event has the capacity of the request (its former capacity when the request
  names none), likewise for the count; so when the request leaves the count alone,
  \<open>registeredCount \<le> capacity\<close> holds afterwards exactly when the former count is at most
  that capacity.
\<close>

theorem updateEvent_stores_requested_capacity:
  assumes "fst (updateEvent i patch now events) = Some e'"
  shows "\<exists>k<length events. event_id (events ! k) = i \<and>
           snd (updateEvent i patch now events) = events[k := e'] \<and>
           capacity e' = spread (capacity (events ! k)) (p_capacity patch) \<and>
           registeredCount e' = spread (registeredCount (events ! k)) (p_registeredCount patch) \<and>
           (p_registeredCount patch = None \<longrightarrow>
              (registeredCount e' \<le> capacity e' \<longleftrightarrow>
               registeredCount (events ! k) \<le> spread (capacity (events ! k)) (p_capacity patch)))"
proof (cases "findIndex (\<lambda>event. event_id event = i) events")
  case None
  from updateEvent_missing [OF None, of patch now] assms show ?thesis by simp
next
  case (Some k)
  from Some have kl: "k < length events" and ik: "event_id (events ! k) = i"
    by (simp_all add: findIndex_Some_iff)
  from updateEvent_found [OF Some, of patch now] assms
  have "snd (updateEvent i patch now events) = events[k := e']"
    and "capacity e' = spread (capacity (events ! k)) (p_capacity patch)"
    and "registeredCount e' = spread (registeredCount (events ! k)) (p_registeredCount patch)"
    by auto
  with kl ik show ?thesis by (intro exI [of _ k]) (simp add: spread_def)
qed

theorem updateEvent_stores_requested_capacity_witness:
  "fst (updateEvent ''c1'' (empty_patch\<lparr>p_capacity := Some 40\<rparr>) t1 sample_store) =
     Some (taller\<lparr>capacity := 40, updatedAt := t1\<rparr>) \<and>
   p_registeredCount (empty_patch\<lparr>p_capacity := Some 40\<rparr>) = None \<and>
   registeredCount (taller\<lparr>capacity := 40, updatedAt := t1\<rparr>)
     \<le> capacity (taller\<lparr>capacity := 40, updatedAt := t1\<rparr>)"
proof -
  have h: "fst (updateEvent ''c1'' (empty_patch\<lparr>p_capacity := Some 40\<rparr>) t1 sample_store) =
     Some (taller\<lparr>capacity := 40, updatedAt := t1\<rparr>)"
    by (simp add: updateEvent_def Let_def spread_def empty_patch_def sample_defs)
  from updateEvent_stores_requested_capacity [OF h] show ?thesis
    using h by (simp add: empty_patch_def taller_def)
qed

text \<open>
  The workshop has 28 registrations and capacity 30; the request \<^verbatim>\<open>{capacity: 10}\<close> is
  stored as it is, and the stored event then has more registrations than capacity.
\<close>

theorem capacity_below_count_counterexample:
  "within_capacity taller \<and>
   fst (updateEvent ''c1'' (empty_patch\<lparr>p_capacity := Some 10\<rparr>) t1 sample_store) =
     Some (taller\<lparr>capacity := 10, updatedAt := t1\<rparr>) \<and>
   snd (updateEvent ''c1'' (empty_patch\<lparr>p_capacity := Some 10\<rparr>) t1 sample_store) =
     [taller\<lparr>capacity := 10, updatedAt := t1\<rparr>, hackathon, agotado] \<and>
   registeredCount (taller\<lparr>capacity := 10, updatedAt := t1\<rparr>) = 28 \<and>
   capacity (taller\<lparr>capacity := 10, updatedAt := t1\<rparr>) = 10 \<and>
   \<not> registeredCount (taller\<lparr>capacity := 10, updatedAt := t1\<rparr>)
       \<le> capacity (taller\<lparr>capacity := 10, updatedAt := t1\<rparr>)"
  by (simp add: updateEvent_def Let_def spread_def empty_patch_def sample_defs within_capacity_def)

text \<open>
  The action on top: a successful \<^verbatim>\<open>updateEventAction\<close> has handed the object the schema
  returned to \<^verbatim>\<open>updateEvent\<close>; and whether it succeeds does not depend on the events of
  the store beyond the presence of the id, whatever the schema is, since the schema sees
  the form fields only.
\<close>

lemma updateEventAction_outcome:
  assumes "fs_success (fst (updateEventAction S N i prev fd now events))"
  shows "\<exists>patch e'. S (updateEventAction_rawData N fd) = Inr patch \<and>
           updateEvent i patch now events = (Some e', snd (updateEventAction S N i prev fd now events)) \<and>
           fs_data (fst (updateEventAction S N i prev fd now events)) = Some e'"
proof (cases "S (updateEventAction_rawData N fd)")
  case (Inl issues)
  with assms show ?thesis by (simp add: updateEventAction_def)
next
  case (Inr patch)
  obtain r events' where u: "updateEvent i patch now events = (r, events')"
    by (cases "updateEvent i patch now events")
  with Inr assms show ?thesis
    by (cases r) (simp_all add: updateEventAction_def)
qed

lemma updateEventAction_validation_blind:
  assumes "findIndex (\<lambda>event. event_id event = i) events = Some k"
    and "findIndex (\<lambda>event. event_id event = i) events2 = Some k2"
  shows "fs_success (fst (updateEventAction S N i prev fd now events)) =
         fs_success (fst (updateEventAction S N i prev fd now events2))"
proof (cases "S (updateEventAction_rawData N fd)")
  case (Inl issues)
  then show ?thesis by (simp add: updateEventAction_def)
next
  case (Inr patch)
  from updateEvent_found [OF assms(1), of patch now] updateEvent_found [OF assms(2), of patch now]
  obtain e1 e2 where "updateEvent i patch now events = (Some e1, events[k := e1])"
    and "updateEvent i patch now events2 = (Some e2, events2[k2 := e2])"
    by blast
  with Inr show ?thesis by (simp add: updateEventAction_def)
qed

subsection \<open>Creating\<close>

text \<open>
  \<^bold>\<open>C8.\<close> A new event starts in the status its creation input names: \<^verbatim>\<open>createEvent\<close> stores
  \<^verbatim>\<open>data.status\<close> as it is and appends the event to the store, and the status select of the
  creation form is preset to \<^verbatim>\<open>'publicado'\<close>. The event is a draft only when the input says
  \<^verbatim>\<open>'borrador'\<close>.
\<close>

theorem createEvent_stores_given_status:
  "status (fst (createEvent d newId now events)) = d_status d \<and>
   snd (createEvent d newId now events) = events @ [fst (createEvent d newId now events)] \<and>
   EventForm_status_default initialState None = ''publicado''"
  by (simp add: createEvent_def Let_def EventForm_status_default_def getValue_status_def
      initialState_def truthy_def)

text \<open>
  Submitting the creation form with the preset status creates a published event, not a
  draft.
\<close>

theorem created_as_published_counterexample:
  "EventForm_status_default initialState None = ''publicado'' \<and>
   d_status nuevo = ''publicado'' \<and>
   status (fst (createEvent nuevo ''c9'' t1 sample_store)) = ''publicado'' \<and>
   last (snd (createEvent nuevo ''c9'' t1 sample_store)) = fst (createEvent nuevo ''c9'' t1 sample_store) \<and>
   status (last (snd (createEvent nuevo ''c9'' t1 sample_store))) \<noteq> ''borrador''"
  by (simp add: createEvent_def Let_def EventForm_status_default_def getValue_status_def
      initialState_def truthy_def nuevo_def)

text \<open>
  \<^verbatim>\<open>createEventAction\<close> in terms of \<^verbatim>\<open>createEvent\<close>: the status stored is the one of the
  object the schema returned.
\<close>

lemma createEventAction_outcome:
  "createEventAction S N prev fd newId now events =
     (case S (createEventAction_rawData N (createEventAction_formValues fd)) of
        Inl issues \<Rightarrow>
          (\<lparr>fs_success = False,
            fs_message = ''Por favor, corrige los errores en el formulario'',
            fs_errors = Some (collect_errors issues []),
            fs_values = Some (createEventAction_formValues fd), fs_data = None\<rparr>, events)
      | Inr d \<Rightarrow>
          (\<lparr>fs_success = True, fs_message = ''Evento creado correctamente'',
            fs_errors = None, fs_values = None,
            fs_data = Some (fst (createEvent d newId now events))\<rparr>,
           events @ [fst (createEvent d newId now events)]))"
  by (simp add: createEventAction_def Let_def createEvent_def split: sum.splits)

lemma createEventAction_status:
  assumes "S (createEventAction_rawData N (createEventAction_formValues fd)) = Inr d"
  shows "map_option status (fs_data (fst (createEventAction S N prev fd newId now events))) =
           Some (d_status d)"
  using assms by (simp add: createEventAction_outcome createEvent_def Let_def)

text \<open>
  \<^bold>\<open>C10.\<close> Whatever the creation input carries, also a count or time stamps of its own,
  \<^verbatim>\<open>createEvent\<close> stores the new event with \<^verbatim>\<open>registeredCount\<close> 0 and with \<^verbatim>\<open>createdAt\<close> equal
  to \<^verbatim>\<open>updatedAt\<close> (the clock reading of the call). The capacity of the input is stored
  unchecked, so the new event satisfies \<open>0 \<le> registeredCount \<le> capacity\<close> exactly when
  that capacity is not negative.
\<close>

theorem createEvent_starts_empty:
  "registeredCount (fst (createEvent d newId now events)) = 0 \<and>
   createdAt (fst (createEvent d newId now events)) = updatedAt (fst (createEvent d newId now events)) \<and>
   updatedAt (fst (createEvent d newId now events)) = now \<and>
   capacity (fst (createEvent d newId now events)) = d_capacity d \<and>
   snd (createEvent d newId now events) = events @ [fst (createEvent d newId now events)] \<and>
   (within_capacity (fst (createEvent d newId now events)) \<longleftrightarrow> 0 \<le> d_capacity d)"
  by (simp add: createEvent_def Let_def within_capacity_def)

theorem createEvent_starts_empty_witness:
  "0 \<le> d_capacity con_cuenta \<and> d_registeredCount con_cuenta = Some 7 \<and>
   registeredCount (fst (createEvent con_cuenta ''c9'' t1 sample_store)) = 0 \<and>
   within_capacity (fst (createEvent con_cuenta ''c9'' t1 sample_store))"
proof -
  have h: "0 \<le> d_capacity con_cuenta" by (simp add: con_cuenta_def nuevo_def)
  have c: "d_registeredCount con_cuenta = Some 7" by (simp add: con_cuenta_def)
  from createEvent_starts_empty [of con_cuenta "''c9''" t1 sample_store] h c
  show ?thesis by simp
qed

text \<open>
  A creation input with the capacity \<open>-5\<close>: the event is stored with count 0 and capacity
  \<open>-5\<close>, and does not satisfy \<open>registeredCount \<le> capacity\<close>.
\<close>

theorem negative_capacity_counterexample:
  "d_capacity negativo = - 5 \<and>
   registeredCount (fst (createEvent negativo ''c9'' t1 sample_store)) = 0 \<and>
   capacity (fst (createEvent negativo ''c9'' t1 sample_store)) = - 5 \<and>
   last (snd (createEvent negativo ''c9'' t1 sample_store)) =
     fst (createEvent negativo ''c9'' t1 sample_store) \<and>
   \<not> within_capacity (fst (createEvent negativo ''c9'' t1 sample_store))"
  by (simp add: createEvent_def Let_def within_capacity_def negativo_def nuevo_def)

end
